theory Spec2Isabelle
  imports Complex_Main "HOL-Library.Multiset"
begin

section \<open>Python values and built-ins used by the code\<close>

text \<open>
  Strings are lists of characters; a character stands for one code point below 256.
  Case conversion is modelled on the ASCII letters, every other character is uncased.
\<close>

datatype exn_kind = JSONDecodeError | AttributeError | FileNotFoundError | ServiceError

datatype exn = Exn (kind: exn_kind) (message: string)

definition ascii_lowercase :: string where
  "ascii_lowercase = ''abcdefghijklmnopqrstuvwxyz''"

definition ascii_uppercase :: string where
  "ascii_uppercase = ''ABCDEFGHIJKLMNOPQRSTUVWXYZ''"

definition islower :: "char \<Rightarrow> bool" where
  "islower c = (c \<in> set ascii_lowercase)"

definition isupper :: "char \<Rightarrow> bool" where
  "isupper c = (c \<in> set ascii_uppercase)"

definition upper :: "char \<Rightarrow> char" where
  "upper c = (case map_of (zip ascii_lowercase ascii_uppercase) c of Some u \<Rightarrow> u | None \<Rightarrow> c)"

definition lower :: "char \<Rightarrow> char" where
  "lower c = (case map_of (zip ascii_uppercase ascii_lowercase) c of Some l \<Rightarrow> l | None \<Rightarrow> c)"

text \<open>\<^verbatim>\<open>str.title()\<close>: a letter that follows a cased character is lowered, any other letter
  is raised.\<close>

fun title_from :: "bool \<Rightarrow> string \<Rightarrow> string" where
  "title_from previous_is_cased [] = []"
| "title_from previous_is_cased (c # cs) =
     (if islower c then (if previous_is_cased then c else upper c) # title_from True cs
      else if isupper c then (if previous_is_cased then lower c else c) # title_from True cs
      else c # title_from False cs)"

definition str_title :: "string \<Rightarrow> string" where
  "str_title s = title_from False s"

definition str_lower :: "string \<Rightarrow> string" where
  "str_lower s = map lower s"

definition replace_char :: "char \<Rightarrow> char \<Rightarrow> string \<Rightarrow> string" where
  "replace_char old new s = map (\<lambda>c. if c = old then new else c) s"

definition isspace :: "char \<Rightarrow> bool" where
  "isspace c = (c \<in> set [CHR '' '', CHR 0x09, CHR 0x0A, CHR 0x0B, CHR 0x0C, CHR 0x0D,
                          CHR 0x1C, CHR 0x1D, CHR 0x1E, CHR 0x1F, CHR 0x85, CHR 0xA0])"

definition strip :: "string \<Rightarrow> string" where
  "strip s = rev (dropWhile isspace (rev (dropWhile isspace s)))"

fun join :: "string \<Rightarrow> string list \<Rightarrow> string" where
  "join sep [] = []"
| "join sep [x] = x"
| "join sep (x # y # ys) = x @ sep @ join sep (y # ys)"

fun str_nat :: "nat \<Rightarrow> string" where
  "str_nat n = (if n < 10 then [''0123456789'' ! n]
                else str_nat (n div 10) @ [''0123456789'' ! (n mod 10)])"

declare str_nat.simps [simp del]

definition str_int :: "int \<Rightarrow> string" where
  "str_int i = (if i < 0 then CHR ''-'' # str_nat (nat (- i)) else str_nat (nat i))"

text \<open>A slice \<^verbatim>\<open>xs[:n]\<close>: a negative bound counts from the end.\<close>

definition slice_to :: "int \<Rightarrow> 'a list \<Rightarrow> 'a list" where
  "slice_to n xs = (if 0 \<le> n then take (nat n) xs else take (length xs - nat (- n)) xs)"

text \<open>Dictionaries with string keys keep their insertion order; assigning an existing
  key keeps its place.\<close>

datatype pyval = VNone | VInt int | VStr string

type_synonym pydict = "(string \<times> pyval) list"

fun dict_set :: "string \<Rightarrow> pyval \<Rightarrow> pydict \<Rightarrow> pydict" where
  "dict_set k v [] = [(k, v)]"
| "dict_set k v (p # ps) = (if fst p = k then (k, v) # ps else p # dict_set k v ps)"

definition dict_update :: "pydict \<Rightarrow> pydict \<Rightarrow> pydict" where
  "dict_update d other = foldl (\<lambda>acc (k, v). dict_set k v acc) d other"

definition dict_get :: "pydict \<Rightarrow> string \<Rightarrow> pyval option" where
  "dict_get d k = map_of d k"

section \<open>Structured values and their rendering as prose\<close>

text \<open>
  The value \<^verbatim>\<open>json.loads\<close> returns. A float is carried as the text \<^verbatim>\<open>str\<close> gives for it,
  which is all the converter ever asks of a float. An object is the list of its items in
  insertion order.
\<close>

datatype json = JNull | JBool bool | JInt int | JFloat string | JStr string
  | JList "json list" | JDict "(string \<times> json) list"

text \<open>\<^verbatim>\<open>isinstance\<close>: in Python \<^verbatim>\<open>bool\<close> is a subclass of \<^verbatim>\<open>int\<close>, so a boolean is an
  instance of \<^verbatim>\<open>(int, float)\<close> as well.\<close>

definition isinstance_str :: "json \<Rightarrow> bool" where
  "isinstance_str v = (case v of JStr _ \<Rightarrow> True | _ \<Rightarrow> False)"

definition isinstance_int_float :: "json \<Rightarrow> bool" where
  "isinstance_int_float v =
     (case v of JInt _ \<Rightarrow> True | JFloat _ \<Rightarrow> True | JBool _ \<Rightarrow> True | _ \<Rightarrow> False)"

definition isinstance_bool :: "json \<Rightarrow> bool" where
  "isinstance_bool v = (case v of JBool _ \<Rightarrow> True | _ \<Rightarrow> False)"

definition isinstance_dict :: "json \<Rightarrow> bool" where
  "isinstance_dict v = (case v of JDict _ \<Rightarrow> True | _ \<Rightarrow> False)"

definition isinstance_simple :: "json \<Rightarrow> bool" where
  "isinstance_simple v = (isinstance_str v \<or> isinstance_int_float v \<or> isinstance_bool v)"

text \<open>\<^verbatim>\<open>str(value)\<close> for the values the converter applies it to: strings, numbers, booleans
  and \<^verbatim>\<open>None\<close>. The converter never asks for the text of a list or an object this way.\<close>

fun str_scalar :: "json \<Rightarrow> string" where
  "str_scalar (JStr s) = s"
| "str_scalar (JInt i) = str_int i"
| "str_scalar (JFloat r) = r"
| "str_scalar (JBool b) = (if b then ''True'' else ''False'')"
| "str_scalar JNull = ''None''"
| "str_scalar (JList xs) = []"
| "str_scalar (JDict d) = []"

definition truthy :: "json \<Rightarrow> bool" where
  "truthy v = (case v of JBool b \<Rightarrow> b | _ \<Rightarrow> True)"

definition indexed :: "string \<Rightarrow> nat \<Rightarrow> string" where
  "indexed p i = p @ ''['' @ str_nat i @ '']''"

definition indent_of :: "nat \<Rightarrow> string" where
  "indent_of level = concat (replicate level ''  '')"

definition humanize :: "string \<Rightarrow> string" where
  "humanize key = str_title (replace_char CHR ''_'' CHR '' '' key)"

function (sequential) convert_value_to_text :: "json \<Rightarrow> string \<Rightarrow> string"
  and dict_to_text :: "(string \<times> json) list \<Rightarrow> string \<Rightarrow> nat \<Rightarrow> string"
  and process_list :: "json list \<Rightarrow> string \<Rightarrow> string \<Rightarrow> nat \<Rightarrow> string"
where
  "convert_value_to_text v context_path =
     (if isinstance_str v then str_scalar v
      else if isinstance_int_float v then str_scalar v
      else if isinstance_bool v then (if truthy v then ''yes'' else ''no'')
      else (case v of
          JList xs \<Rightarrow>
            (if xs = [] then ''none''
             else if length xs = 1 then convert_value_to_text (hd xs) context_path
             else if list_all isinstance_str xs then join '', '' (map str_scalar xs)
             else join ''; ''
                    (map (\<lambda>(i, item). convert_value_to_text item (indexed context_path i))
                       (enumerate 0 (take 5 xs))))
        | JDict d \<Rightarrow> dict_to_text d context_path 0
        | _ \<Rightarrow> str_scalar v))"
| "dict_to_text data context_path level =
     (if data = [] then ''''
      else join ''\<newline>'' (concat (map (\<lambda>(key, v).
        (let key_formatted = humanize key;
             value_path = (if context_path \<noteq> [] then context_path @ ''.'' @ key else key)
         in (case v of
               JDict d \<Rightarrow>
                 (if d \<noteq> [] then
                    (let nested_text = dict_to_text d value_path (level + 1)
                     in if nested_text \<noteq> []
                        then [indent_of level @ key_formatted @ '': '' @ nested_text] else [])
                  else [])
             | JList xs \<Rightarrow>
                 (if xs \<noteq> [] then
                    (let list_text = process_list xs key_formatted value_path level
                     in if list_text \<noteq> [] then [list_text] else [])
                  else [])
             | _ \<Rightarrow>
                 (let formatted_value = convert_value_to_text v value_path
                  in if formatted_value \<noteq> []
                     then [indent_of level @ key_formatted @ '': '' @ formatted_value]
                     else [])))) data)))"
| "process_list items list_name context_path level =
     (if items = [] then ''''
      else join ''\<newline>'' ((indent_of level @ list_name @ '':'') #
        (if list_all isinstance_simple items then
           (if length items \<le> 5 then
              map (\<lambda>item. indent_of level @ ''  - '' @ convert_value_to_text item context_path)
                items
            else
              [indent_of level @ ''  - '' @ join '', '' (map str_scalar (take 3 items))
                 @ '', and '' @ str_nat (length items - 3) @ '' more items''])
         else
           concat (map (\<lambda>(i, item).
             (case item of
                JDict d \<Rightarrow>
                  (let item_text = dict_to_text d (indexed context_path i) (level + 1)
                   in if item_text \<noteq> []
                      then [indent_of level @ ''  Item '' @ str_nat (i + 1) @ '':'', item_text]
                      else [])
              | _ \<Rightarrow> [indent_of level @ ''  - ''
                        @ convert_value_to_text item (indexed context_path i)]))
             (enumerate 0 (take 3 items)))
           @ (if length items > 3
              then [indent_of level @ ''  ... and '' @ str_nat (length items - 3)
                      @ '' more items'']
              else []))))"
  by pat_completeness auto

lemma list_elem_size: "x \<in> set xs \<Longrightarrow> size (x::json) < size_list size xs"
  by (induction xs) auto

lemma dict_value_size:
  "(k, v) \<in> set data \<Longrightarrow> size (v::json) < size_list (size_prod (\<lambda>_. 0) size) data"
  by (induction data) auto

lemma enumerate_take_elem: "(i, x) \<in> set (enumerate k (take n xs)) \<Longrightarrow> x \<in> set xs"
proof -
  assume "(i, x) \<in> set (enumerate k (take n xs))"
  then have "x \<in> set (take n xs)"
    by (simp add: enumerate_eq_zip) (meson in_set_zipE)
  then show ?thesis by (rule in_set_takeD)
qed

lemma hd_elem_size: "xs \<noteq> [] \<Longrightarrow> size (hd xs :: json) < size_list size xs"
  by (simp add: list_elem_size)

lemma enumerate_take_size:
  "(i, x) \<in> set (enumerate k (take n xs)) \<Longrightarrow> size (x::json) < size_list size xs"
  by (rule list_elem_size) (rule enumerate_take_elem)

lemma dict_nested_size:
  "(k, JDict d) \<in> set data \<Longrightarrow>
     size_list (size_prod (\<lambda>_. 0) size) d < size_list (size_prod (\<lambda>_. 0) size) data"
  using dict_value_size [of k "JDict d" data] by simp

lemma dict_list_size:
  "(k, JList xs) \<in> set data \<Longrightarrow>
     size_list size xs < size_list (size_prod (\<lambda>_. 0) size) data"
  using dict_value_size [of k "JList xs" data] by simp

lemma list_nested_size:
  "(i, JDict d) \<in> set (enumerate k (take n xs)) \<Longrightarrow>
     size_list (size_prod (\<lambda>_. 0) size) d < size_list size xs"
  using enumerate_take_size [of i "JDict d" k n xs] by simp

termination convert_value_to_text
  apply (relation "measure (\<lambda>x. case x of Inl (v, _) \<Rightarrow> size v
      | Inr (Inl (d, _)) \<Rightarrow> size_list (size_prod (\<lambda>_. 0) size) d
      | Inr (Inr (xs, _)) \<Rightarrow> size_list size xs)")
  apply (simp_all add: hd_elem_size less_Suc_eq enumerate_take_size dict_value_size
      dict_nested_size dict_list_size list_nested_size list_elem_size)
  apply (auto dest: list_elem_size dict_value_size enumerate_take_size dict_nested_size
      dict_list_size list_nested_size)
  done

declare convert_value_to_text.simps [simp del]
declare dict_to_text.simps [simp del]
declare process_list.simps [simp del]

text \<open>
  \<^verbatim>\<open>json.dumps(value)\<close> with the default separators and \<^verbatim>\<open>ensure_ascii\<close>: the library's
  serialisation, of which the converter uses only the length.
\<close>

definition hex_digit :: "nat \<Rightarrow> char" where
  "hex_digit n = ''0123456789abcdef'' ! n"

definition escape_char :: "char \<Rightarrow> string" where
  "escape_char c =
     (if c = CHR 0x22 then [CHR 0x5C, CHR 0x22]
      else if c = CHR 0x5C then [CHR 0x5C, CHR 0x5C]
      else if c = CHR 0x0A then [CHR 0x5C, CHR ''n'']
      else if c = CHR 0x0D then [CHR 0x5C, CHR ''r'']
      else if c = CHR 0x09 then [CHR 0x5C, CHR ''t'']
      else if c = CHR 0x08 then [CHR 0x5C, CHR ''b'']
      else if c = CHR 0x0C then [CHR 0x5C, CHR ''f'']
      else if 32 \<le> (of_char c :: nat) \<and> (of_char c :: nat) \<le> 126 then [c]
      else [CHR 0x5C, CHR ''u'', CHR ''0'', CHR ''0'',
            hex_digit ((of_char c :: nat) div 16), hex_digit ((of_char c :: nat) mod 16)])"

definition dumps_str :: "string \<Rightarrow> string" where
  "dumps_str s = CHR 0x22 # concat (map escape_char s) @ [CHR 0x22]"

definition dumps_float :: "string \<Rightarrow> string" where
  "dumps_float r =
     (if r = ''inf'' then ''Infinity'' else if r = ''-inf'' then ''-Infinity''
      else if r = ''nan'' then ''NaN'' else r)"

fun json_dumps :: "json \<Rightarrow> string" where
  "json_dumps JNull = ''null''"
| "json_dumps (JBool b) = (if b then ''true'' else ''false'')"
| "json_dumps (JInt i) = str_int i"
| "json_dumps (JFloat r) = dumps_float r"
| "json_dumps (JStr s) = dumps_str s"
| "json_dumps (JList xs) = ''['' @ join '', '' (map json_dumps xs) @ '']''"
| "json_dumps (JDict d) =
     ''{'' @ join '', '' (map (\<lambda>(k, v). dumps_str k @ '': '' @ json_dumps v) d) @ ''}''"

section \<open>Documents and chunks\<close>

record document =
  page_content :: string
  metadata :: pydict

text \<open>
  \<^verbatim>\<open>_create_structured_chunks\<close>: the inner \<^verbatim>\<open>process_object\<close> appends to the list of
  documents in pre-order; the model returns what one call appends.
\<close>

function process_object ::
  "pydict \<Rightarrow> (string \<times> json) list \<Rightarrow> string \<Rightarrow> string \<Rightarrow> document list"
where
  "process_object meta obj path parent_context =
     (let obj_text = dict_to_text obj path 0 in
        (if obj_text \<noteq> [] \<and> length (strip obj_text) > 50 then
           [\<lparr>page_content =
               (if parent_context \<noteq> []
                then ''Context: '' @ parent_context @ ''\<newline>\<newline>'' @ obj_text
                else obj_text),
             metadata =
               dict_set ''chunk_type'' (VStr ''json_object'')
                 (dict_set ''context'' (VStr parent_context)
                    (dict_set ''json_path'' (VStr (if path \<noteq> [] then path else ''root''))
                       meta))\<rparr>]
         else [])
        @ concat (map (\<lambda>(key, v).
            (let current_path = (if path \<noteq> [] then path @ ''.'' @ key else key);
                 section_context =
                   (if parent_context \<noteq> [] then parent_context @ '' > '' @ humanize key
                    else humanize key)
             in (case v of
                   JDict d \<Rightarrow>
                     (if d \<noteq> [] then
                        (if length (json_dumps v) > 200
                         then process_object meta d current_path section_context
                         else [])
                      else [])
                 | JList xs \<Rightarrow>
                     (if xs \<noteq> [] then
                        (if list_all isinstance_dict xs then
                           concat (map (\<lambda>(i, item).
                             (let item_context = section_context @ '' > Item '' @ str_nat (i + 1)
                              in (case item of
                                    JDict d \<Rightarrow>
                                      process_object meta d (indexed current_path i) item_context
                                  | _ \<Rightarrow> [])))
                             (enumerate 0 (take 5 xs)))
                         else [])
                      else [])
                 | _ \<Rightarrow> []))) obj))"
  by pat_completeness auto

lemma dict_list_nested_size:
  assumes "(k, JList xs) \<in> set data" and "(i, JDict d) \<in> set (enumerate n (take m xs))"
  shows "size_list (size_prod (\<lambda>_. 0) size) d < size_list (size_prod (\<lambda>_. 0) size) data"
  using dict_list_size [OF assms(1)] list_nested_size [OF assms(2)] by simp

termination process_object
  apply (relation "measure (\<lambda>(meta, obj, path, parent_context).
      size_list (size_prod (\<lambda>_. 0) size) obj)")
  apply (auto dest: dict_nested_size dict_list_nested_size)
  done

declare process_object.simps [simp del]

definition create_structured_chunks :: "(string \<times> json) list \<Rightarrow> pydict \<Rightarrow> document list" where
  "create_structured_chunks data meta = process_object meta data '''' ''Root''"

definition create_overview :: "json \<Rightarrow> string" where
  "create_overview data =
     (case data of
        JDict d \<Rightarrow>
          (let overview_parts = concat (map (\<lambda>(key, v).
             (let key_formatted = humanize key
              in (case v of
                    JDict obj \<Rightarrow>
                      [key_formatted @ '' contains information about: ''
                         @ join '', '' (map (replace_char CHR ''_'' CHR '' '') (take 5 (map fst obj)))
                         @ (if length obj > 5
                            then '' (and '' @ str_nat (length obj - 5) @ '' more fields)''
                            else [])]
                  | JList xs \<Rightarrow>
                      (if xs \<noteq> [] then
                         [key_formatted @ '' contains '' @ str_nat (length xs) @ '' ''
                            @ (case hd xs of
                                 JDict first \<Rightarrow>
                                   ''entries with ''
                                     @ join '', '' (map (replace_char CHR ''_'' CHR '' '')
                                                      (take 3 (map fst first)))
                               | _ \<Rightarrow> ''items'')]
                       else [])
                  | _ \<Rightarrow>
                      (if isinstance_str v \<or> isinstance_int_float v then
                         (if str_lower key \<in> set [''name'', ''title'', ''description'', ''summary'']
                          then [key_formatted @ '': '' @ str_scalar v] else [])
                       else [])))) d)
           in if overview_parts \<noteq> [] then join ''. '' overview_parts @ ''.'' else [])
      | _ \<Rightarrow> [])"

section \<open>Configuration and external collaborators\<close>

record settings =
  chunk_size :: int
  chunk_overlap :: int
  reranker_enabled :: bool
  reranker_top_k :: int
  reranker_candidates :: int

type_synonym vector = "real list"

text \<open>
  The services the code calls and does not implement: the JSON parser (\<open>None\<close> stands for
  \<^verbatim>\<open>JSONDecodeError\<close>), the library's recursive character splitter (chunk size, overlap,
  separators, text), the embedding model, the similarity of the vector index, the PDF
  loader (from the content of the file) and the language model.
\<close>

record services =
  json_loads :: "string \<Rightarrow> json option"
  split_text :: "int \<Rightarrow> int \<Rightarrow> string list \<Rightarrow> string \<Rightarrow> string list"
  embed_documents :: "string list \<Rightarrow> exn + vector list"
  embed_query :: "string \<Rightarrow> exn + vector"
  similarity :: "vector \<Rightarrow> vector \<Rightarrow> real"
  pdf_load :: "string \<Rightarrow> exn + document list"
  llm_generate :: "string \<Rightarrow> string list \<Rightarrow> string option \<Rightarrow> exn + string"

text \<open>\<^verbatim>\<open>TextSplitter.split_documents\<close>: every piece of a document's text becomes a document
  carrying a copy of the metadata.\<close>

definition split_documents ::
  "services \<Rightarrow> settings \<Rightarrow> string list \<Rightarrow> document list \<Rightarrow> document list" where
  "split_documents svc st seps docs =
     concat (map (\<lambda>d. map (\<lambda>t. \<lparr>page_content = t, metadata = metadata d\<rparr>)
                          (split_text svc (chunk_size st) (chunk_overlap st) seps (page_content d)))
                 docs)"

definition json_separators :: "string list" where
  "json_separators = [''\<newline>\<newline>'', ''\<newline>'', ''. '', '' '', '''']"

definition text_separators :: "string list" where
  "text_separators = [''\<newline>\<newline>'', ''\<newline>'', ''.'', '' '', '''']"

text \<open>What a processor hands to the indexer: documents, or (on the decode-error path of
  the structural converter) bare strings.\<close>

datatype chunk = Doc document | Raw string

fun chunk_text :: "chunk \<Rightarrow> string" where
  "chunk_text (Doc d) = page_content d"
| "chunk_text (Raw s) = s"

definition type_name :: "json \<Rightarrow> string" where
  "type_name v = (case v of JNull \<Rightarrow> ''NoneType'' | JBool _ \<Rightarrow> ''bool'' | JInt _ \<Rightarrow> ''int''
     | JFloat _ \<Rightarrow> ''float'' | JStr _ \<Rightarrow> ''str'' | JList _ \<Rightarrow> ''list'' | JDict _ \<Rightarrow> ''dict'')"

definition no_attribute :: "string \<Rightarrow> string \<Rightarrow> exn" where
  "no_attribute ty attr =
     Exn AttributeError ([CHR 0x27] @ ty @ [CHR 0x27] @ '' object has no attribute ''
                           @ [CHR 0x27] @ attr @ [CHR 0x27])"

text \<open>
  \<^verbatim>\<open>EnhancedJSONProcessor.process\<close>. A parsed value that is not an object has no
  \<^verbatim>\<open>items\<close>: the attribute error is re-raised by the last handler.
\<close>

definition json_process :: "services \<Rightarrow> settings \<Rightarrow> string \<Rightarrow> pydict \<Rightarrow> exn + chunk list" where
  "json_process svc st content meta =
     (case json_loads svc content of
        None \<Rightarrow>
          Inr (map Raw (split_text svc (chunk_size st) (chunk_overlap st) json_separators content))
      | Some json_data \<Rightarrow>
          (case json_data of
             JDict d \<Rightarrow>
               (let enhanced_metadata =
                      dict_set ''processor'' (VStr ''enhanced_json'')
                        (dict_set ''content_type'' (VStr ''json'') meta);
                    structured_chunks = create_structured_chunks d enhanced_metadata;
                    overview_text = create_overview json_data;
                    structured_chunks =
                      (if overview_text \<noteq> [] then
                         \<lparr>page_content = ''Complete Overview:\<newline>\<newline>'' @ overview_text,
                          metadata = dict_set ''chunk_type'' (VStr ''overview'') enhanced_metadata\<rparr>
                           # structured_chunks
                       else structured_chunks);
                    final_chunks = concat (map (\<lambda>chunk.
                      if int (length (page_content chunk)) > chunk_size st * 2
                      then split_documents svc st json_separators [chunk]
                      else [chunk]) structured_chunks)
                in Inr (map Doc final_chunks))
           | _ \<Rightarrow> Inl (no_attribute (type_name json_data) ''items'')))"

text \<open>\<^verbatim>\<open>TextProcessor.process\<close>.\<close>

definition text_process :: "services \<Rightarrow> settings \<Rightarrow> string \<Rightarrow> pydict \<Rightarrow> exn + chunk list" where
  "text_process svc st content meta =
     Inr (map Doc (split_documents svc st text_separators
                     [\<lparr>page_content = content, metadata = meta\<rparr>]))"

section \<open>Vector store\<close>

record point =
  point_id :: string
  point_vector :: vector
  payload :: pydict

text \<open>The index: its points, how many identifiers were drawn so far, and the error the
  client raises while the index cannot be reached.\<close>

record store =
  points :: "point list"
  drawn :: nat
  client_error :: "exn option"

text \<open>\<^verbatim>\<open>str(uuid.uuid4())\<close>: a fresh identifier; the model numbers them.\<close>

definition uuid4 :: "nat \<Rightarrow> string" where
  "uuid4 n = ''uuid-'' @ str_nat n"

datatype condition = Match string pyval

type_synonym query_filter = "condition list option"

fun holds :: "pydict \<Rightarrow> condition \<Rightarrow> bool" where
  "holds pl (Match k v) = (dict_get pl k = Some v)"

definition matches :: "query_filter \<Rightarrow> pydict \<Rightarrow> bool" where
  "matches f pl = (case f of None \<Rightarrow> True | Some must \<Rightarrow> list_all (holds pl) must)"

fun upsert_point :: "point \<Rightarrow> point list \<Rightarrow> point list" where
  "upsert_point p [] = [p]"
| "upsert_point p (q # qs) =
     (if point_id q = point_id p then p # qs else q # upsert_point p qs)"

text \<open>Modelled from the spec: the vector index is an external service. Its \<^verbatim>\<open>upsert\<close> is
  idempotent by id.\<close>

definition client_upsert :: "point list \<Rightarrow> store \<Rightarrow> exn + store" where
  "client_upsert ps s =
     (case client_error s of
        Some e \<Rightarrow> Inl e
      | None \<Rightarrow> Inr (s\<lparr>points := foldl (\<lambda>acc p. upsert_point p acc) (points s) ps\<rparr>))"

text \<open>Modelled from the spec: \<^verbatim>\<open>search(vector, user_filter, limit, threshold)\<close> of the
  external index returns the hits whose payload matches the filter and whose score reaches
  the threshold, best first, at most \<open>limit\<close> of them.\<close>

definition client_search ::
  "services \<Rightarrow> store \<Rightarrow> vector \<Rightarrow> int \<Rightarrow> query_filter \<Rightarrow> real \<Rightarrow> exn + (point \<times> real) list" where
  "client_search svc s query_vector limit flt score_threshold =
     (case client_error s of
        Some e \<Rightarrow> Inl e
      | None \<Rightarrow>
          Inr (take (nat limit)
                 (sort_key (\<lambda>(p, score). - score)
                    (filter (\<lambda>(p, score). matches flt (payload p) \<and> score_threshold \<le> score)
                       (map (\<lambda>p. (p, similarity svc query_vector (point_vector p)))
                          (points s))))))"

text \<open>\<^verbatim>\<open>VectorStore.add_documents\<close>. Reading \<^verbatim>\<open>page_content\<close> of a bare string raises.\<close>

fun as_documents :: "chunk list \<Rightarrow> exn + document list" where
  "as_documents [] = Inr []"
| "as_documents (Raw s # cs) = Inl (no_attribute ''str'' ''page_content'')"
| "as_documents (Doc d # cs) =
     (case as_documents cs of Inl e \<Rightarrow> Inl e | Inr ds \<Rightarrow> Inr (d # ds))"

definition make_payload :: "document \<Rightarrow> string \<Rightarrow> int \<Rightarrow> pydict" where
  "make_payload doc session_id uid =
     dict_update [(''text'', VStr (page_content doc)), (''session_id'', VStr session_id),
                  (''user_id'', VInt uid)]
       (metadata doc)"

definition add_documents ::
  "services \<Rightarrow> store \<Rightarrow> chunk list \<Rightarrow> string \<Rightarrow> int \<Rightarrow> exn + (string list \<times> store)" where
  "add_documents svc s documents session_id uid =
     (case as_documents documents of
        Inl e \<Rightarrow> Inl e
      | Inr docs \<Rightarrow>
          (case embed_documents svc (map page_content docs) of
             Inl e \<Rightarrow> Inl e
           | Inr embeddings \<Rightarrow>
               (let new_points = map (\<lambda>(i, (doc, embedding)).
                      \<lparr>point_id = uuid4 (drawn s + i), point_vector = embedding,
                       payload = make_payload doc session_id uid\<rparr>)
                      (enumerate 0 (zip docs embeddings));
                    s' = s\<lparr>drawn := drawn s + length new_points\<rparr>
                in (case client_upsert new_points s' of
                      Inl e \<Rightarrow> Inl e
                    | Inr s'' \<Rightarrow> Inr (map point_id new_points, s'')))))"

text \<open>What \<^verbatim>\<open>search\<close> returns for a hit, and what the reranker adds to it.\<close>

record retrieved =
  doc_id :: string
  doc_text :: string
  score :: real
  doc_metadata :: pydict
  rerank_score :: "real option"

text \<open>\<^verbatim>\<open>result.payload.get("text", "")\<close>; \<^verbatim>\<open>add_documents\<close> writes the text as a string.\<close>

definition payload_text :: "pydict \<Rightarrow> string" where
  "payload_text pl = (case dict_get pl ''text'' of Some (VStr t) \<Rightarrow> t | _ \<Rightarrow> [])"

text \<open>\<^verbatim>\<open>VectorStore.search\<close>. The filter is built under \<^verbatim>\<open>if user_id:\<close>, which is false for
  \<^verbatim>\<open>None\<close> and for \<^verbatim>\<open>0\<close>.\<close>

definition search ::
  "services \<Rightarrow> store \<Rightarrow> string \<Rightarrow> int option \<Rightarrow> int \<Rightarrow> real \<Rightarrow> exn + retrieved list" where
  "search svc s q uid limit score_threshold =
     (case embed_query svc q of
        Inl e \<Rightarrow> Inl e
      | Inr query_embedding \<Rightarrow>
          (let filter_conditions =
                 (case uid of
                    None \<Rightarrow> None
                  | Some u \<Rightarrow> if u \<noteq> 0 then Some [Match ''user_id'' (VInt u)] else None)
           in (case client_search svc s query_embedding limit filter_conditions score_threshold of
                 Inl e \<Rightarrow> Inl e
               | Inr results \<Rightarrow>
                   Inr (map (\<lambda>(p, sc).
                          \<lparr>doc_id = point_id p, doc_text = payload_text (payload p), score = sc,
                           doc_metadata = filter (\<lambda>(k, v). k \<noteq> ''text'') (payload p),
                           rerank_score = None\<rparr>) results))))"

section \<open>Reranker\<close>

text \<open>The reranker holds its cross-encoder, or \<open>None\<close> when it was built with reranking
  disabled. The scorer takes the (query, text) pairs and may raise.\<close>

record reranker =
  model :: "((string \<times> string) list \<Rightarrow> exn + real list) option"

text \<open>\<^verbatim>\<open>documents[:top_k] if top_k else documents\<close>: \<^verbatim>\<open>None\<close> and \<^verbatim>\<open>0\<close> are both false.\<close>

definition first_k :: "int option \<Rightarrow> 'a list \<Rightarrow> 'a list" where
  "first_k top_k documents =
     (case top_k of
        None \<Rightarrow> documents
      | Some k \<Rightarrow> if k \<noteq> 0 then slice_to k documents else documents)"

text \<open>\<^verbatim>\<open>for doc, score in zip(documents, scores): doc["rerank_score"] = float(score)\<close>.\<close>

fun set_scores :: "retrieved list \<Rightarrow> real list \<Rightarrow> retrieved list" where
  "set_scores (d # ds) (x # xs) = d\<lparr>rerank_score := Some x\<rparr> # set_scores ds xs"
| "set_scores ds xs = ds"

definition rerank_key :: "retrieved \<Rightarrow> real" where
  "rerank_key d = (case rerank_score d of Some x \<Rightarrow> x | None \<Rightarrow> 0)"

text \<open>
  \<^verbatim>\<open>Reranker.rerank\<close>. Sorting raises a key error when a document carries no rerank
  score (the scorer returned too few scores); the handler then returns the documents as
  the loop left them. \<^verbatim>\<open>sorted(..., reverse=True)\<close> is stable.
\<close>

definition rerank ::
  "settings \<Rightarrow> reranker \<Rightarrow> string \<Rightarrow> retrieved list \<Rightarrow> int option \<Rightarrow> retrieved list" where
  "rerank st rr q documents top_k =
     (case model rr of
        None \<Rightarrow> first_k top_k documents
      | Some predict \<Rightarrow>
          (if \<not> reranker_enabled st then first_k top_k documents
           else
             (let top_k = (case top_k of
                             None \<Rightarrow> reranker_top_k st
                           | Some k \<Rightarrow> if k \<noteq> 0 then k else reranker_top_k st)
              in (case predict (map (\<lambda>doc. (q, doc_text doc)) documents) of
                    Inl e \<Rightarrow> first_k (Some top_k) documents
                  | Inr scores \<Rightarrow>
                      (let documents = set_scores documents scores
                       in if list_all (\<lambda>d. rerank_score d \<noteq> None) documents
                          then slice_to top_k (sort_key (\<lambda>d. - rerank_key d) documents)
                          else first_k (Some top_k) documents)))))"

section \<open>Retrieval pipeline\<close>

record rag_state =
  query :: string
  user_id :: "int option"
  system_prompt :: "string option"
  retrieved_docs :: "retrieved list"
  reranked_docs :: "retrieved list"
  context_segments :: "string list"
  response :: string
  error :: "string option"

text \<open>What the pipeline works with: the collaborators, the index and the reranker.\<close>

record rag_graph =
  rag_services :: services
  rag_settings :: settings
  vector_store :: store
  rag_reranker :: reranker

definition retrieve_documents :: "rag_graph \<Rightarrow> rag_state \<Rightarrow> rag_state" where
  "retrieve_documents g state =
     (case search (rag_services g) (vector_store g) (query state) (user_id state)
             (reranker_candidates (rag_settings g)) (1 / 2) of
        Inr documents \<Rightarrow> state\<lparr>retrieved_docs := documents\<rparr>
      | Inl e \<Rightarrow> state\<lparr>error := Some (message e), retrieved_docs := []\<rparr>)"

text \<open>\<^verbatim>\<open>rerank_documents\<close>: \<^verbatim>\<open>Reranker.rerank\<close> handles its own exceptions, so the handler of
  this node (the first \<^verbatim>\<open>reranker_top_k\<close> retrieved documents) is never entered.\<close>

definition rerank_documents :: "rag_graph \<Rightarrow> rag_state \<Rightarrow> rag_state" where
  "rerank_documents g state =
     (if retrieved_docs state = [] then state\<lparr>reranked_docs := []\<rparr>
      else state\<lparr>reranked_docs :=
             rerank (rag_settings g) (rag_reranker g) (query state) (retrieved_docs state)
               (Some (reranker_top_k (rag_settings g)))\<rparr>)"

text \<open>\<^verbatim>\<open>doc.get("metadata", {}).get("source", "")\<close>, as the text it contributes when it is
  true.\<close>

definition source_of :: "retrieved \<Rightarrow> string" where
  "source_of doc =
     (case dict_get (doc_metadata doc) ''source'' of
        Some (VStr src) \<Rightarrow> src
      | Some (VInt i) \<Rightarrow> (if i \<noteq> 0 then str_int i else [])
      | _ \<Rightarrow> [])"

definition prepare_context :: "rag_state \<Rightarrow> rag_state" where
  "prepare_context state =
     state\<lparr>context_segments :=
       concat (map (\<lambda>doc.
         if doc_text doc \<noteq> [] then
           (if source_of doc \<noteq> []
            then [''[Source: '' @ source_of doc @ '']\<newline>'' @ doc_text doc]
            else [doc_text doc])
         else []) (reranked_docs state))\<rparr>"

definition no_information :: string where
  "no_information =
     ''I couldn'' @ [CHR 0x27] @ ''t find any relevant information to answer your question.''"

text \<open>\<^verbatim>\<open>generate_response\<close> returns the state together with the calls it made to the
  language model.\<close>

type_synonym llm_call = "string \<times> string list \<times> string option"

definition generate_response :: "rag_graph \<Rightarrow> rag_state \<Rightarrow> rag_state \<times> llm_call list" where
  "generate_response g state =
     (if context_segments state = [] then (state\<lparr>response := no_information\<rparr>, [])
      else
        (case llm_generate (rag_services g) (query state) (context_segments state)
                (system_prompt state) of
           Inr r \<Rightarrow> (state\<lparr>response := r\<rparr>,
                     [(query state, context_segments state, system_prompt state)])
         | Inl e \<Rightarrow>
             (state\<lparr>response := ''An error occurred while generating the response: '' @ message e,
                    error := Some (message e)\<rparr>,
              [(query state, context_segments state, system_prompt state)])))"

record source =
  source_text :: string
  source_metadata :: pydict

record answer =
  answer_response :: string
  answer_sources :: "source list"
  answer_error :: "string option"

text \<open>
  \<^verbatim>\<open>process_query\<close>: the compiled graph runs the four nodes in the order of its edges.
  Every node catches its own exceptions, so the handler of \<^verbatim>\<open>process_query\<close> has nothing
  to catch in this model.
\<close>

definition initial_state :: "string \<Rightarrow> int option \<Rightarrow> string option \<Rightarrow> rag_state" where
  "initial_state q uid sp =
     \<lparr>query = q, user_id = uid, system_prompt = sp, retrieved_docs = [], reranked_docs = [],
      context_segments = [], response = [], error = None\<rparr>"

definition process_query ::
  "rag_graph \<Rightarrow> string \<Rightarrow> int option \<Rightarrow> string option \<Rightarrow> answer \<times> llm_call list" where
  "process_query g q uid sp =
     (let (result, calls) =
             generate_response g (prepare_context (rerank_documents g
               (retrieve_documents g (initial_state q uid sp))))
      in (\<lparr>answer_response = response result,
           answer_sources = map (\<lambda>doc. \<lparr>source_text = take 200 (doc_text doc) @ ''...'',
                                         source_metadata = doc_metadata doc\<rparr>)
                              (take 3 (reranked_docs result)),
           answer_error = error result\<rparr>, calls))"

section \<open>Crawler\<close>

text \<open>
  A URL as \<^verbatim>\<open>urlparse\<close> sees it: its network location, and everything else (fragments are
  stripped before a link is compared or stored).
\<close>

datatype url = Url (netloc: string) (rest: string)

text \<open>
  A fetched page as the scraper reads it from the parser: the title text, the texts of
  the paragraph, heading and list-item elements of the content area, and for every anchor
  the URL that \<^verbatim>\<open>urldefrag(urljoin(base, href))[0]\<close> gives (\<open>None\<close> when resolving raises).
\<close>

record page =
  title_text :: string
  element_texts :: "string list"
  anchors :: "url option list"

datatype fetch_result = FetchError | Response page

text \<open>The web answers the \<open>n\<close>-th request of a crawl for a URL.\<close>

type_synonym web = "nat \<Rightarrow> url \<Rightarrow> fetch_result"

record page_record =
  page_url :: url
  page_text :: string
  page_title :: string
  depth :: int

text \<open>The scraper object together with the local frontier of \<^verbatim>\<open>scrape\<close> and the number of
  requests sent.\<close>

record scraper =
  max_depth :: int
  max_links_per_page :: int
  visited_urls :: "url set"
  content :: "page_record list"
  to_visit :: "(url \<times> int) list"
  requests :: nat

definition combined_text :: "page \<Rightarrow> string" where
  "combined_text pg = join '' '' (filter (\<lambda>t. t \<noteq> []) (map strip (element_texts pg)))"

definition extract_text :: "page \<Rightarrow> url \<Rightarrow> int \<Rightarrow> scraper \<Rightarrow> scraper" where
  "extract_text pg u d sc =
     (if strip (combined_text pg) \<noteq> [] then
        sc\<lparr>content := content sc @
              [\<lparr>page_url = u, page_text = strip (combined_text pg),
                page_title = strip (title_text pg), depth = d\<rparr>]\<rparr>
      else sc)"

fun resolve_all :: "url option list \<Rightarrow> url list option" where
  "resolve_all [] = Some []"
| "resolve_all (None # as) = None"
| "resolve_all (Some u # as) = (case resolve_all as of None \<Rightarrow> None | Some us \<Rightarrow> Some (u # us))"

definition get_links :: "page \<Rightarrow> url \<Rightarrow> url list option" where
  "get_links pg base_url =
     (case resolve_all (anchors pg) of
        None \<Rightarrow> None
      | Some full_urls \<Rightarrow> Some (filter (\<lambda>full_url. netloc full_url = netloc base_url) full_urls))"

text \<open>The entries one iteration appends to the frontier, given the scraper as it is after
  the page was recorded.\<close>

definition new_entries :: "scraper \<Rightarrow> url list \<Rightarrow> int \<Rightarrow> (url \<times> int) list" where
  "new_entries sc links current_depth =
     map (\<lambda>link. (link, current_depth + 1))
       (filter (\<lambda>link. link \<notin> visited_urls sc) (slice_to (max_links_per_page sc) links))"

text \<open>
  One iteration of the \<^verbatim>\<open>while to_visit\<close> loop, on a non-empty frontier. Any exception
  inside the \<^verbatim>\<open>try\<close> leaves what was done before it and goes on with the next entry.
\<close>

definition scrape_step :: "web \<Rightarrow> scraper \<Rightarrow> scraper" where
  "scrape_step w sc =
     (case to_visit sc of
        [] \<Rightarrow> sc
      | (u, current_depth) # remaining \<Rightarrow>
          (if u \<in> visited_urls sc \<or> current_depth > max_depth sc
           then sc\<lparr>to_visit := remaining\<rparr>
           else
             (case w (requests sc) u of
                FetchError \<Rightarrow> sc\<lparr>to_visit := remaining, requests := requests sc + 1\<rparr>
              | Response pg \<Rightarrow>
                  (let sc = sc\<lparr>to_visit := remaining, requests := requests sc + 1,
                                visited_urls := insert u (visited_urls sc)\<rparr>;
                       sc = extract_text pg u current_depth sc
                   in if current_depth < max_depth sc then
                        (case get_links pg u of
                           None \<Rightarrow> sc
                         | Some links \<Rightarrow>
                             sc\<lparr>to_visit := to_visit sc @ new_entries sc links current_depth\<rparr>)
                      else sc))))"

definition weight :: "int \<Rightarrow> url \<times> int \<Rightarrow> nat" where
  "weight md e = nat (md + 1 - snd e)"

definition frontier_weight :: "scraper \<Rightarrow> nat multiset" where
  "frontier_weight sc = mset (map (weight (max_depth sc)) (to_visit sc))"

function scrape_loop :: "web \<Rightarrow> scraper \<Rightarrow> scraper" where
  "scrape_loop w sc = (if to_visit sc = [] then sc else scrape_loop w (scrape_step w sc))"
  by pat_completeness auto

lemma extract_text_fields [simp]:
  "to_visit (extract_text pg u d sc) = to_visit sc"
  "max_depth (extract_text pg u d sc) = max_depth sc"
  "max_links_per_page (extract_text pg u d sc) = max_links_per_page sc"
  "visited_urls (extract_text pg u d sc) = visited_urls sc"
  "requests (extract_text pg u d sc) = requests sc"
  by (simp_all add: extract_text_def Let_def)

lemma new_entries_depth: "e \<in> set (new_entries sc links d) \<Longrightarrow> snd e = d + 1"
  by (auto simp: new_entries_def)

lemma scrape_step_max_depth [simp]: "max_depth (scrape_step w sc) = max_depth sc"
  by (simp add: scrape_step_def Let_def
      split: list.splits prod.splits fetch_result.splits option.splits)

lemma scrape_step_frontier:
  assumes "to_visit sc = e # remaining"
  shows "\<exists>new. to_visit (scrape_step w sc) = remaining @ new \<and>
           (\<forall>x \<in> set new. weight (max_depth sc) x < weight (max_depth sc) e)"
proof (cases e)
  case (Pair u d)
  show ?thesis
    using assms Pair
    by (auto simp: scrape_step_def Let_def weight_def dest!: new_entries_depth
        split: fetch_result.splits option.splits)
qed

text \<open>Every iteration replaces the entry it pops by finitely many entries one level deeper,
  so the multiset of the remaining depth budgets of the frontier decreases.\<close>

lemma scrape_step_decreases:
  assumes "to_visit sc \<noteq> []"
  shows "(frontier_weight (scrape_step w sc), frontier_weight sc) \<in> mult less_than"
proof -
  obtain e remaining where tv: "to_visit sc = e # remaining"
    using assms by (cases "to_visit sc") auto
  from scrape_step_frontier [OF tv, of w] obtain new where
    new: "to_visit (scrape_step w sc) = remaining @ new"
      "\<forall>x \<in> set new. weight (max_depth sc) x < weight (max_depth sc) e"
    by blast
  let ?f = "weight (max_depth sc)"
  have "(mset (map ?f remaining) + mset (map ?f new), mset (map ?f remaining) + {#?f e#})
          \<in> mult less_than"
    by (rule one_step_implies_mult) (use new(2) in auto)
  then show ?thesis
    by (simp add: frontier_weight_def tv new(1))
qed

termination scrape_loop
  by (relation "inv_image (mult less_than) (\<lambda>(w, sc). frontier_weight sc)")
     (auto simp: wf_mult scrape_step_decreases)

declare scrape_loop.simps [simp del]

definition new_scraper :: "int \<Rightarrow> int \<Rightarrow> scraper" where
  "new_scraper md ml =
     \<lparr>max_depth = md, max_links_per_page = ml, visited_urls = {}, content = [],
      to_visit = [], requests = 0\<rparr>"

definition scrape :: "web \<Rightarrow> scraper \<Rightarrow> url \<Rightarrow> scraper" where
  "scrape w sc start_url = scrape_loop w (sc\<lparr>to_visit := [(start_url, 1)]\<rparr>)"

text \<open>\<^verbatim>\<open>URLProcessor._run_scraper\<close>: a fresh scraper for every crawl; the result is its
  content.\<close>

definition run_scraper :: "web \<Rightarrow> url \<Rightarrow> int \<Rightarrow> int \<Rightarrow> page_record list" where
  "run_scraper w start_url md ml = content (scrape w (new_scraper md ml) start_url)"

text \<open>No URL is recorded twice, and every recorded URL is in the visited set.\<close>

definition recorded_once :: "scraper \<Rightarrow> bool" where
  "recorded_once sc =
     (distinct (map page_url (content sc)) \<and> page_url ` set (content sc) \<subseteq> visited_urls sc)"

section \<open>Ingestion coordinator\<close>

text \<open>The row of a document (its timestamp is left out), and what an ingestion works on:
  the documents table, the files by path, and the vector index.\<close>

record document_row =
  processed :: string
  error_message :: "string option"

record world =
  db :: "int \<Rightarrow> document_row option"
  files :: "string \<Rightarrow> string option"
  index :: store

definition endswith :: "string \<Rightarrow> string \<Rightarrow> bool" where
  "endswith s suffix =
     (length suffix \<le> length s \<and> drop (length s - length suffix) s = suffix)"

definition no_such_file :: "string \<Rightarrow> exn" where
  "no_such_file path =
     Exn FileNotFoundError (''[Errno 2] No such file or directory: ''
                              @ [CHR 0x27] @ path @ [CHR 0x27])"

definition read_file :: "world \<Rightarrow> string \<Rightarrow> exn + string" where
  "read_file wd path = (case files wd path of None \<Rightarrow> Inl (no_such_file path) | Some c \<Rightarrow> Inr c)"

definition unlink :: "world \<Rightarrow> string \<Rightarrow> exn + world" where
  "unlink wd path =
     (case files wd path of
        None \<Rightarrow> Inl (no_such_file path)
      | Some c \<Rightarrow> Inr (wd\<lparr>files := (files wd)(path := None)\<rparr>))"

definition set_row :: "world \<Rightarrow> int \<Rightarrow> (document_row \<Rightarrow> document_row) \<Rightarrow> world" where
  "set_row wd document_id f =
     (case db wd document_id of
        None \<Rightarrow> wd
      | Some row \<Rightarrow> wd\<lparr>db := (db wd)(document_id := Some (f row))\<rparr>)"

definition pdf_separators :: "string list" where
  "pdf_separators = [''\<newline>\<newline>'', ''\<newline>'', '' '', '''']"

text \<open>\<^verbatim>\<open>PDFProcessor.process\<close>.\<close>

definition pdf_process ::
  "services \<Rightarrow> settings \<Rightarrow> world \<Rightarrow> string \<Rightarrow> pydict \<Rightarrow> exn + chunk list" where
  "pdf_process svc st wd file_path meta =
     (case read_file wd file_path of
        Inl e \<Rightarrow> Inl e
      | Inr bytes \<Rightarrow>
          (case pdf_load svc bytes of
             Inl e \<Rightarrow> Inl e
           | Inr documents \<Rightarrow>
               (let documents =
                      (if meta \<noteq> []
                       then map (\<lambda>doc. doc\<lparr>metadata := dict_update (metadata doc) meta\<rparr>) documents
                       else documents)
                in Inr (map Doc (split_documents svc st pdf_separators documents)))))"

text \<open>The routing of \<^verbatim>\<open>process_file_from_path\<close>: which processor produces the chunks.\<close>

definition produce_chunks ::
  "services \<Rightarrow> settings \<Rightarrow> world \<Rightarrow> string \<Rightarrow> string \<Rightarrow> pydict \<Rightarrow> exn + chunk list" where
  "produce_chunks svc st wd file_path filename meta =
     (if endswith (str_lower filename) ''.pdf'' then pdf_process svc st wd file_path meta
      else if endswith (str_lower filename) ''.json'' then
        (case read_file wd file_path of
           Inl e \<Rightarrow> Inl e
         | Inr text \<Rightarrow> json_process svc st text meta)
      else
        (case read_file wd file_path of
           Inl e \<Rightarrow> Inl e
         | Inr text \<Rightarrow>
             (case json_loads svc (strip text) of
                Some parsed \<Rightarrow> json_process svc st text meta
              | None \<Rightarrow> text_process svc st text meta)))"

text \<open>The body of the inner \<^verbatim>\<open>try\<close>: produce the chunks, index them, mark the document
  completed.\<close>

definition ingest_body ::
  "services \<Rightarrow> settings \<Rightarrow> world \<Rightarrow> string \<Rightarrow> string \<Rightarrow> int \<Rightarrow> string \<Rightarrow> int \<Rightarrow> exn + world" where
  "ingest_body svc st wd file_path filename document_id session_id uid =
     (let meta = [(''document_id'', VInt document_id), (''filename'', VStr filename),
                  (''session_id'', VStr session_id)]
      in (case produce_chunks svc st wd file_path filename meta of
            Inl e \<Rightarrow> Inl e
          | Inr chunks \<Rightarrow>
              (case add_documents svc (index wd) chunks session_id uid of
                 Inl e \<Rightarrow> Inl e
               | Inr (ids, s) \<Rightarrow>
                   Inr (set_row (wd\<lparr>index := s\<rparr>) document_id
                          (\<lambda>row. row\<lparr>processed := ''completed''\<rparr>)))))"

text \<open>
  \<^verbatim>\<open>IngestionPipeline.process_file_from_path\<close>. The \<^verbatim>\<open>finally\<close> clause removes the file
  whatever the body did; when removing raises, that exception is the one the outer handler
  sees. The handler marks the document failed. The early return for an unknown document
  comes before the inner \<^verbatim>\<open>try\<close>.
\<close>

definition process_file_from_path ::
  "services \<Rightarrow> settings \<Rightarrow> world \<Rightarrow> string \<Rightarrow> string \<Rightarrow> int \<Rightarrow> string \<Rightarrow> int \<Rightarrow> world" where
  "process_file_from_path svc st wd file_path filename document_id session_id uid =
     (case db wd document_id of
        None \<Rightarrow> wd
      | Some document \<Rightarrow>
          (let wd = set_row wd document_id (\<lambda>row. row\<lparr>processed := ''processing''\<rparr>);
               body = ingest_body svc st wd file_path filename document_id session_id uid;
               after_body = (case body of Inl e \<Rightarrow> wd | Inr wd' \<Rightarrow> wd');
               outcome =
                 (case unlink after_body file_path of
                    Inl e \<Rightarrow> (after_body, Some e)
                  | Inr wd'' \<Rightarrow> (wd'', (case body of Inl e \<Rightarrow> Some e | Inr _ \<Rightarrow> None)))
           in (case snd outcome of
                 None \<Rightarrow> fst outcome
               | Some e \<Rightarrow>
                   set_row (fst outcome) document_id
                     (\<lambda>row. row\<lparr>processed := ''failed'', error_message := Some (message e)\<rparr>))))"

text \<open>\<^verbatim>\<open>IngestionPipeline.process_file\<close>: the upload is written to a temporary file (at the
  path the system picks) that is not removed on close, and handed over.\<close>

definition process_file ::
  "services \<Rightarrow> settings \<Rightarrow> world \<Rightarrow> string \<Rightarrow> string \<Rightarrow> string \<Rightarrow> int \<Rightarrow> string \<Rightarrow> int \<Rightarrow> world" where
  "process_file svc st wd tmp_path filename uploaded document_id session_id uid =
     process_file_from_path svc st (wd\<lparr>files := (files wd)(tmp_path := Some uploaded)\<rparr>)
       tmp_path filename document_id session_id uid"

section \<open>Sample collaborators and inputs\<close>

text \<open>
  Concrete collaborators and inputs on which the model is run below. The splitter cuts
  a text into consecutive pieces of the chunk size; the parser knows the texts used here
  and answers on them as \<^verbatim>\<open>json.loads\<close> does; every text embeds to the same vector.
\<close>

function chop :: "nat \<Rightarrow> string \<Rightarrow> string list" where
  "chop n s = (if n = 0 \<or> s = [] then [] else take n s # chop n (drop n s))"
  by pat_completeness auto

termination chop
  by (relation "measure (\<lambda>(n, s). length s)") auto

declare chop.simps [simp del]

definition sample_split :: "int \<Rightarrow> int \<Rightarrow> string list \<Rightarrow> string \<Rightarrow> string list" where
  "sample_split cs ov seps text = chop (nat cs) text"

definition sample_object_text :: string where
  \<open>sample_object_text =
     ''{"name": "Acme Incorporated, maker of anvils, rockets and giant magnets"}''\<close>

definition sample_object :: json where
  "sample_object =
     JDict [(''name'', JStr ''Acme Incorporated, maker of anvils, rockets and giant magnets'')]"

definition sample_loads :: "string \<Rightarrow> json option" where
  "sample_loads s = (if s = sample_object_text then Some sample_object else None)"

definition sample_services :: services where
  "sample_services =
     \<lparr>json_loads = sample_loads, split_text = sample_split,
      embed_documents = (\<lambda>texts. Inr (map (\<lambda>t. [1]) texts)),
      embed_query = (\<lambda>q. Inr [1]),
      similarity = (\<lambda>a b. 1),
      pdf_load = (\<lambda>bytes. Inr []),
      llm_generate = (\<lambda>q ctx sp. Inr ''generated'')\<rparr>"

definition sample_settings :: settings where
  "sample_settings =
     \<lparr>chunk_size = 50, chunk_overlap = 10, reranker_enabled = True, reranker_top_k = 5,
      reranker_candidates = 20\<rparr>"

definition empty_store :: store where
  "empty_store = \<lparr>points = [], drawn = 0, client_error = None\<rparr>"

definition store_of_user7 :: store where
  "store_of_user7 =
     \<lparr>points = [\<lparr>point_id = ''uuid-0'', point_vector = [1],
                  payload = [(''text'', VStr ''notes of user 7''), (''session_id'', VStr ''s7''),
                             (''user_id'', VInt 7)]\<rparr>],
      drawn = 1, client_error = None\<rparr>"

definition unreachable_store :: store where
  "unreachable_store =
     \<lparr>points = [], drawn = 0, client_error = Some (Exn ServiceError ''connection refused'')\<rparr>"

definition sample_graph :: "store \<Rightarrow> rag_graph" where
  "sample_graph s =
     \<lparr>rag_services = sample_services, rag_settings = sample_settings, vector_store = s,
      rag_reranker = \<lparr>model = None\<rparr>\<rparr>"

definition sample_hit :: "string \<Rightarrow> real \<Rightarrow> retrieved" where
  "sample_hit t sc =
     \<lparr>doc_id = ''id-'' @ t, doc_text = t, score = sc, doc_metadata = [], rerank_score = None\<rparr>"

definition sample_hits :: "retrieved list" where
  "sample_hits = [sample_hit ''a'' (9 / 10), sample_hit ''b'' (8 / 10), sample_hit ''c'' (7 / 10)]"

definition failing_scorer :: "(string \<times> string) list \<Rightarrow> exn + real list" where
  "failing_scorer pairs = Inl (Exn ServiceError ''out of memory'')"

definition constant_scorer :: "(string \<times> string) list \<Rightarrow> exn + real list" where
  "constant_scorer pairs = Inr (map (\<lambda>p. 1) pairs)"

definition seed_url :: url where
  "seed_url = Url ''example.com'' ''/''"

definition about_url :: url where
  "about_url = Url ''example.com'' ''/about''"

text \<open>A site whose home page links to its "about" page twice, and a site whose home page
  has no text in the elements the scraper reads.\<close>

definition home_page :: page where
  "home_page =
     \<lparr>title_text = ''Home'', element_texts = [''Welcome''],
      anchors = [Some about_url, Some about_url]\<rparr>"

definition sample_web :: web where
  "sample_web n u =
     (if u = seed_url then Response home_page
      else if u = about_url then
        Response \<lparr>title_text = ''About'', element_texts = [''About us''],
                  anchors = [Some seed_url]\<rparr>
      else FetchError)"

definition silent_page :: page where
  "silent_page = \<lparr>title_text = ''Home'', element_texts = [], anchors = []\<rparr>"

definition silent_web :: web where
  "silent_web n u = (if u = seed_url then Response silent_page else FetchError)"

definition sample_overview_chunk :: document where
  "sample_overview_chunk =
     \<lparr>page_content =
        ''Complete Overview:\<newline>\<newline>Name: Acme Incorporated, maker of anvils, rockets and giant magnets.'',
      metadata = [(''content_type'', VStr ''json''), (''processor'', VStr ''enhanced_json''),
                  (''chunk_type'', VStr ''overview'')]\<rparr>"

definition sample_object_chunk :: document where
  "sample_object_chunk =
     \<lparr>page_content =
        ''Context: Root\<newline>\<newline>Name: Acme Incorporated, maker of anvils, rockets and giant magnets'',
      metadata = [(''content_type'', VStr ''json''), (''processor'', VStr ''enhanced_json''),
                  (''json_path'', VStr ''root''), (''context'', VStr ''Root''),
                  (''chunk_type'', VStr ''json_object'')]\<rparr>"

definition pending_row :: document_row where
  "pending_row = \<lparr>processed = ''pending'', error_message = None\<rparr>"

text \<open>A world with the uploaded file at the given path and the row of document 1, and a
  world in which the row of the document is gone.\<close>

definition sample_world :: "string \<Rightarrow> string \<Rightarrow> world" where
  "sample_world path uploaded =
     \<lparr>db = (\<lambda>i. if i = 1 then Some pending_row else None),
      files = (\<lambda>p. if p = path then Some uploaded else None),
      index = empty_store\<rparr>"

definition world_without_rows :: world where
  "world_without_rows = \<lparr>db = (\<lambda>i. None), files = (\<lambda>p. None), index = empty_store\<rparr>"

section \<open>Value-to-text rules\<close>

text \<open>
  C8. The value-to-text rule for booleans: the claim is that \<^verbatim>\<open>true\<close> renders as "yes" and
  \<^verbatim>\<open>false\<close> as "no". The converter tests \<^verbatim>\<open>isinstance(value, (int, float))\<close> before
  \<^verbatim>\<open>isinstance(value, bool)\<close>, and a boolean is an integer, so the branch that renders
  "yes"/"no" is never reached: a boolean renders as \<^verbatim>\<open>str\<close> gives it, "True" or "False",
  alone and as the value of a key.
\<close>

theorem convert_value_to_text_bool:
  "convert_value_to_text (JBool True) context_path = ''True''
   \<and> convert_value_to_text (JBool False) context_path = ''False''
   \<and> dict_to_text [(''active'', JBool True)] [] 0 = ''Active: True''"
  by (simp add: convert_value_to_text.simps dict_to_text.simps isinstance_str_def
      isinstance_int_float_def humanize_def str_title_def replace_char_def islower_def
      isupper_def upper_def lower_def ascii_lowercase_def ascii_uppercase_def indent_of_def)

section \<open>User isolation of the vector store\<close>

lemma dict_get_without_text:
  "k \<noteq> ''text'' \<Longrightarrow> dict_get (filter (\<lambda>(k, v). k \<noteq> ''text'') pl) k = dict_get pl k"
  by (induction pl) (auto simp: dict_get_def)

lemma client_search_matches:
  assumes "client_search svc s v limit flt thr = Inr hits" and "(p, sc) \<in> set hits"
  shows "matches flt (payload p)"
  using assms
  by (auto simp: client_search_def split: option.splits dest!: in_set_takeD)

text \<open>With a user identifier other than 0 the filter is built, and every document returned
  carries that identifier.\<close>

lemma search_isolation:
  assumes "search svc s q (Some u) limit thr = Inr docs" and "u \<noteq> 0" and "d \<in> set docs"
  shows "dict_get (doc_metadata d) ''user_id'' = Some (VInt u)"
proof -
  from assms(1,2) obtain v hits where
    hits: "client_search svc s v limit (Some [Match ''user_id'' (VInt u)]) thr = Inr hits"
    and docs: "docs = map (\<lambda>(p, sc).
        \<lparr>doc_id = point_id p, doc_text = payload_text (payload p), score = sc,
         doc_metadata = filter (\<lambda>(k, v). k \<noteq> ''text'') (payload p),
         rerank_score = None\<rparr>) hits"
    by (auto simp: search_def Let_def split: sum.splits)
  from assms(3) docs obtain p sc where
    mem: "(p, sc) \<in> set hits"
    and d: "doc_metadata d = filter (\<lambda>(k, v). k \<noteq> ''text'') (payload p)"
    by auto
  from client_search_matches [OF hits mem]
  have "dict_get (payload p) ''user_id'' = Some (VInt u)"
    by (simp add: matches_def)
  then show ?thesis
    by (simp add: d dict_get_without_text)
qed

text \<open>
  C1. The claim is that a search with user filter A returns only points whose payload
  \<^verbatim>\<open>user_id\<close> is A, for every A, 0 included. \<^verbatim>\<open>search\<close> builds the filter under
  \<^verbatim>\<open>if user_id:\<close>, which is false for 0: user 7 indexes a document, and the search of user
  0 returns it.
\<close>

theorem search_user_zero_unfiltered:
  "add_documents sample_services empty_store
      [Doc \<lparr>page_content = ''notes of user 7'', metadata = []\<rparr>] ''s7'' 7
     = Inr ([''uuid-0''], store_of_user7)
   \<and> search sample_services store_of_user7 ''notes'' (Some 0) 20 (1 / 2)
     = Inr [\<lparr>doc_id = ''uuid-0'', doc_text = ''notes of user 7'', score = 1,
             doc_metadata = [(''session_id'', VStr ''s7''), (''user_id'', VInt 7)],
             rerank_score = None\<rparr>]"
  by (simp add: add_documents_def search_def client_search_def client_upsert_def
      sample_services_def empty_store_def store_of_user7_def make_payload_def dict_update_def
      uuid4_def str_nat.simps matches_def payload_text_def dict_get_def enumerate_eq_zip)

section \<open>Degradation of the retrieval pipeline\<close>

lemma rerank_documents_empty:
  "retrieved_docs state = [] \<Longrightarrow> reranked_docs (rerank_documents g state) = []"
  by (simp add: rerank_documents_def)

lemma pipeline_without_candidates:
  assumes "retrieved_docs state = []"
  shows "generate_response g (prepare_context (rerank_documents g state))
           = (state\<lparr>reranked_docs := [], context_segments := [], response := no_information\<rparr>, [])"
  using assms by (simp add: rerank_documents_def prepare_context_def generate_response_def)

text \<open>
  C6. When the vector-store search raises, the Retrieve stage records the error and
  substitutes the empty set, and the answer operation still returns: the fixed response
  string, an empty list of sources, and the recorded error.
\<close>

theorem process_query_search_raises:
  assumes "search (rag_services g) (vector_store g) q uid
             (reranker_candidates (rag_settings g)) (1 / 2) = Inl e"
  shows "retrieved_docs (retrieve_documents g (initial_state q uid sp)) = []
         \<and> error (retrieve_documents g (initial_state q uid sp)) = Some (message e)
         \<and> fst (process_query g q uid sp)
             = \<lparr>answer_response = no_information, answer_sources = [],
                answer_error = Some (message e)\<rparr>"
proof -
  let ?s = "retrieve_documents g (initial_state q uid sp)"
  have r: "?s = (initial_state q uid sp)\<lparr>error := Some (message e), retrieved_docs := []\<rparr>"
    using assms by (simp add: retrieve_documents_def initial_state_def)
  then have empty: "retrieved_docs ?s = []" and err: "error ?s = Some (message e)"
    by simp_all
  have "fst (process_query g q uid sp)
          = \<lparr>answer_response = no_information, answer_sources = [],
             answer_error = Some (message e)\<rparr>"
    unfolding process_query_def pipeline_without_candidates [OF empty]
    by (simp add: err)
  with empty err show ?thesis by simp
qed

theorem process_query_search_raises_witness:
  "search (rag_services (sample_graph unreachable_store))
       (vector_store (sample_graph unreachable_store)) ''hi'' (Some 7)
       (reranker_candidates (rag_settings (sample_graph unreachable_store))) (1 / 2)
     = Inl (Exn ServiceError ''connection refused'')
   \<and> fst (process_query (sample_graph unreachable_store) ''hi'' (Some 7) None)
     = \<lparr>answer_response = no_information, answer_sources = [],
        answer_error = Some ''connection refused''\<rparr>"
proof -
  have h: "search (rag_services (sample_graph unreachable_store))
       (vector_store (sample_graph unreachable_store)) ''hi'' (Some 7)
       (reranker_candidates (rag_settings (sample_graph unreachable_store))) (1 / 2)
     = Inl (Exn ServiceError ''connection refused'')"
    by (simp add: search_def client_search_def sample_graph_def sample_services_def
        unreachable_store_def)
  from process_query_search_raises [OF h, of None] h show ?thesis by simp
qed

text \<open>A user without any indexed vector: the filtered search finds nothing.\<close>

lemma search_without_vectors:
  assumes "embed_query svc q = Inr v" and "client_error s = None" and "u \<noteq> 0"
    and "\<forall>p \<in> set (points s). dict_get (payload p) ''user_id'' \<noteq> Some (VInt u)"
  shows "search svc s q (Some u) limit thr = Inr []"
proof -
  have "filter (\<lambda>(p, sc). matches (Some [Match ''user_id'' (VInt u)]) (payload p) \<and> thr \<le> sc)
          (map (\<lambda>p. (p, similarity svc v (point_vector p))) (points s)) = []"
    using assms(4) by (auto simp: filter_empty_conv matches_def)
  then show ?thesis
    using assms(1-3) by (simp add: search_def client_search_def)
qed

text \<open>
  C9. When the search returns no hits and does not raise, the answer operation returns
  the fixed "no relevant information" response, no sources and no error, and makes no call
  to the generator.
\<close>

theorem process_query_no_hits:
  assumes "search (rag_services g) (vector_store g) q uid
             (reranker_candidates (rag_settings g)) (1 / 2) = Inr []"
  shows "process_query g q uid sp
           = (\<lparr>answer_response = no_information, answer_sources = [], answer_error = None\<rparr>, [])"
proof -
  let ?s = "retrieve_documents g (initial_state q uid sp)"
  have r: "?s = (initial_state q uid sp)\<lparr>retrieved_docs := []\<rparr>"
    using assms by (simp add: retrieve_documents_def initial_state_def)
  then have empty: "retrieved_docs ?s = []" and err: "error ?s = None"
    by (simp_all add: initial_state_def)
  show ?thesis
    unfolding process_query_def pipeline_without_candidates [OF empty]
    by (simp add: err)
qed

theorem process_query_no_hits_witness:
  "search (rag_services (sample_graph empty_store)) (vector_store (sample_graph empty_store))
       ''hi'' (Some 7) (reranker_candidates (rag_settings (sample_graph empty_store))) (1 / 2)
     = Inr []
   \<and> process_query (sample_graph empty_store) ''hi'' (Some 7) None
     = (\<lparr>answer_response = no_information, answer_sources = [], answer_error = None\<rparr>, [])"
proof -
  have h: "search (rag_services (sample_graph empty_store))
       (vector_store (sample_graph empty_store)) ''hi'' (Some 7)
       (reranker_candidates (rag_settings (sample_graph empty_store))) (1 / 2) = Inr []"
    by (simp add: search_def client_search_def sample_graph_def sample_services_def
        empty_store_def)
  from process_query_no_hits [OF h, of None] h show ?thesis by simp
qed

section \<open>Rerank fallback\<close>

lemma first_k_positive: "0 < k \<Longrightarrow> first_k (Some k) documents = take (nat k) documents"
  by (simp add: first_k_def slice_to_def)

text \<open>
  C10, as stated: for every K the fallback returns the first K elements. With the reranker
  disabled and K = 0 the whole list comes back, not its first 0 elements.
\<close>

theorem rerank_fallback_zero_counterexample:
  "rerank sample_settings \<lparr>model = None\<rparr> ''q'' sample_hits (Some 0) = sample_hits
   \<and> sample_hits \<noteq> take 0 sample_hits"
  by (simp add: rerank_def first_k_def sample_hits_def)

text \<open>
  C10, amended: for every document list and every K > 0, if the reranker has no model, is
  disabled by configuration, or its scorer raises, \<^verbatim>\<open>rerank\<close> returns the first K
  documents in their original order. The operation has no error result.
\<close>

theorem rerank_fallback_first_k:
  assumes "0 < k"
    and "model rr = None \<or> \<not> reranker_enabled st
         \<or> (\<exists>predict e. model rr = Some predict
               \<and> predict (map (\<lambda>doc. (q, doc_text doc)) documents) = Inl e)"
  shows "rerank st rr q documents (Some k) = take (nat k) documents"
proof (cases "model rr")
  case None
  then show ?thesis
    using assms(1) by (simp add: rerank_def first_k_positive)
next
  case (Some predict)
  show ?thesis
  proof (cases "reranker_enabled st")
    case False
    then show ?thesis
      using Some assms(1) by (simp add: rerank_def first_k_positive)
  next
    case True
    with Some assms(2) obtain e where
      "predict (map (\<lambda>doc. (q, doc_text doc)) documents) = Inl e"
      by auto
    then show ?thesis
      using Some True assms(1) by (simp add: rerank_def first_k_positive)
  qed
qed

theorem rerank_fallback_first_k_witness:
  "rerank sample_settings \<lparr>model = None\<rparr> ''q'' sample_hits (Some 2)
     = [sample_hit ''a'' (9 / 10), sample_hit ''b'' (8 / 10)]
   \<and> rerank (sample_settings\<lparr>reranker_enabled := False\<rparr>) \<lparr>model = Some constant_scorer\<rparr>
       ''q'' sample_hits (Some 2)
     = [sample_hit ''a'' (9 / 10), sample_hit ''b'' (8 / 10)]
   \<and> rerank sample_settings \<lparr>model = Some failing_scorer\<rparr> ''q'' sample_hits (Some 2)
     = [sample_hit ''a'' (9 / 10), sample_hit ''b'' (8 / 10)]"
proof -
  have k: "(0::int) < 2" by simp
  have a: "model \<lparr>model = None\<rparr> = None \<or> \<not> reranker_enabled sample_settings
      \<or> (\<exists>predict e. model \<lparr>model = None\<rparr> = Some predict
            \<and> predict (map (\<lambda>doc. (''q'', doc_text doc)) sample_hits) = Inl e)"
    by simp
  have b: "model \<lparr>model = Some constant_scorer\<rparr> = None
      \<or> \<not> reranker_enabled (sample_settings\<lparr>reranker_enabled := False\<rparr>)
      \<or> (\<exists>predict e. model \<lparr>model = Some constant_scorer\<rparr> = Some predict
            \<and> predict (map (\<lambda>doc. (''q'', doc_text doc)) sample_hits) = Inl e)"
    by simp
  have c: "model \<lparr>model = Some failing_scorer\<rparr> = None \<or> \<not> reranker_enabled sample_settings
      \<or> (\<exists>predict e. model \<lparr>model = Some failing_scorer\<rparr> = Some predict
            \<and> predict (map (\<lambda>doc. (''q'', doc_text doc)) sample_hits) = Inl e)"
    by (simp add: failing_scorer_def)
  show ?thesis
    using rerank_fallback_first_k [OF k a] rerank_fallback_first_k [OF k b]
      rerank_fallback_first_k [OF k c]
    by (simp add: sample_hits_def)
qed

section \<open>Crawl frontier and depth\<close>

lemma new_entries_unvisited: "x \<in> set (new_entries sc links d) \<Longrightarrow> fst x \<notin> visited_urls sc"
  by (auto simp: new_entries_def)

text \<open>An entry whose URL was visited meanwhile is dropped when it is popped, and no URL is
  recorded twice in a crawl.\<close>

lemma scrape_step_skips_visited:
  "to_visit sc = (u, d) # remaining \<Longrightarrow> u \<in> visited_urls sc \<Longrightarrow>
   scrape_step w sc = sc\<lparr>to_visit := remaining\<rparr>"
  by (simp add: scrape_step_def)

lemma scrape_step_recorded_once:
  "recorded_once sc \<Longrightarrow> recorded_once (scrape_step w sc)"
  by (auto simp: recorded_once_def scrape_step_def Let_def extract_text_def
      split: list.splits fetch_result.splits option.splits)

lemma scrape_loop_recorded_once:
  "recorded_once sc \<Longrightarrow> recorded_once (scrape_loop w sc)"
proof (induction w sc rule: scrape_loop.induct)
  case (1 w sc)
  show ?case
  proof (cases "to_visit sc = []")
    case True
    then show ?thesis using "1.prems" by (subst scrape_loop.simps) simp
  next
    case False
    from "1.IH" [OF False scrape_step_recorded_once [OF "1.prems"]] False show ?thesis
      by (subst scrape_loop.simps) simp
  qed
qed

lemma run_scraper_distinct_urls: "distinct (map page_url (run_scraper w seed md ml))"
proof -
  have "recorded_once ((new_scraper md ml)\<lparr>to_visit := [(seed, 1)]\<rparr>)"
    by (simp add: recorded_once_def new_scraper_def)
  from scrape_loop_recorded_once [OF this, of w] show ?thesis
    by (simp add: run_scraper_def scrape_def recorded_once_def)
qed

text \<open>
  C4, as stated: the frontier never holds two entries with the same URL. A link is
  compared with the visited set only, not with the frontier: the home page links to the
  same page twice, and after the first iteration that page is in the frontier twice.
\<close>

theorem frontier_duplicate_counterexample:
  "to_visit (scrape_step sample_web ((new_scraper 2 20)\<lparr>to_visit := [(seed_url, 1)]\<rparr>))
     = [(about_url, 2), (about_url, 2)]
   \<and> \<not> distinct (map fst [(about_url, 2 :: int), (about_url, 2)])"
  by (simp add: scrape_step_def Let_def new_scraper_def sample_web_def home_page_def
      get_links_def new_entries_def slice_to_def seed_url_def about_url_def)

text \<open>
  C4, amended: during every crawl run a URL that has already been fetched is never
  enqueued: every iteration of the crawl loop removes the entry it pops and appends only
  entries whose URL is not in the visited set (a URL that is already in the frontier may
  be appended again).
\<close>

theorem scrape_step_appends_unvisited:
  assumes "to_visit sc = e # remaining"
  shows "\<exists>new. to_visit (scrape_step w sc) = remaining @ new
           \<and> (\<forall>x \<in> set new. fst x \<notin> visited_urls (scrape_step w sc))"
proof (cases e)
  case (Pair u d)
  show ?thesis
    using assms Pair
    by (auto simp: scrape_step_def Let_def dest!: new_entries_unvisited
        split: fetch_result.splits option.splits)
qed

theorem scrape_step_appends_unvisited_witness:
  "to_visit ((new_scraper 2 20)\<lparr>to_visit := [(seed_url, 1)]\<rparr>) = (seed_url, 1) # []
   \<and> (\<exists>new. to_visit (scrape_step sample_web ((new_scraper 2 20)\<lparr>to_visit := [(seed_url, 1)]\<rparr>))
               = [] @ new
           \<and> (\<forall>x \<in> set new. fst x \<notin> visited_urls
                   (scrape_step sample_web ((new_scraper 2 20)\<lparr>to_visit := [(seed_url, 1)]\<rparr>))))"
proof -
  have h: "to_visit ((new_scraper 2 20)\<lparr>to_visit := [(seed_url, 1)]\<rparr>) = (seed_url, 1) # []"
    by simp
  from scrape_step_appends_unvisited [OF h, of sample_web] h show ?thesis by blast
qed

lemma scrape_step_content_bound:
  assumes "\<forall>r \<in> set (content sc). depth r \<le> max_depth sc"
  shows "\<forall>r \<in> set (content (scrape_step w sc)). depth r \<le> max_depth sc"
  using assms
  by (auto simp: scrape_step_def Let_def extract_text_def
      split: list.splits fetch_result.splits option.splits if_splits)

lemma scrape_step_content_prefix: "\<exists>more. content (scrape_step w sc) = content sc @ more"
  by (auto simp: scrape_step_def Let_def extract_text_def
      split: list.splits fetch_result.splits option.splits)

lemma scrape_loop_content_bound:
  "\<forall>r \<in> set (content sc). depth r \<le> max_depth sc \<Longrightarrow>
   \<forall>r \<in> set (content (scrape_loop w sc)). depth r \<le> max_depth sc"
proof (induction w sc rule: scrape_loop.induct)
  case (1 w sc)
  show ?case
  proof (cases "to_visit sc = []")
    case True
    then show ?thesis using "1.prems" by (subst scrape_loop.simps) simp
  next
    case False
    from scrape_step_content_bound [OF "1.prems", of w]
    have "\<forall>r \<in> set (content (scrape_step w sc)). depth r \<le> max_depth (scrape_step w sc)"
      by simp
    from "1.IH" [OF False this] False show ?thesis
      by (subst scrape_loop.simps) simp
  qed
qed

lemma scrape_loop_content_prefix: "\<exists>more. content (scrape_loop w sc) = content sc @ more"
proof (induction w sc rule: scrape_loop.induct)
  case (1 w sc)
  show ?case
  proof (cases "to_visit sc = []")
    case True
    then show ?thesis by (subst scrape_loop.simps) simp
  next
    case False
    from "1.IH" [OF False] obtain more where
      "content (scrape_loop w (scrape_step w sc)) = content (scrape_step w sc) @ more"
      by blast
    moreover obtain more' where "content (scrape_step w sc) = content sc @ more'"
      using scrape_step_content_prefix by blast
    ultimately show ?thesis using False
      by (subst scrape_loop.simps) simp
  qed
qed

lemma first_step_records_seed:
  assumes "1 \<le> md" and "w 0 seed = Response pg" and "strip (combined_text pg) \<noteq> []"
  shows "content (scrape_step w ((new_scraper md ml)\<lparr>to_visit := [(seed, 1)]\<rparr>))
           = [\<lparr>page_url = seed, page_text = strip (combined_text pg),
                page_title = strip (title_text pg), depth = 1\<rparr>]"
  using assms
  by (simp add: scrape_step_def Let_def new_scraper_def extract_text_def split: option.splits)

text \<open>
  C5, as stated: whenever the fetch of the seed succeeds, a record of depth 1 is returned.
  A page is recorded only when the text extracted from it is not empty: the seed is
  fetched, its page has no text, and the crawl returns no record.
\<close>

theorem seed_without_text_counterexample:
  "silent_web 0 seed_url = Response silent_page
   \<and> run_scraper silent_web seed_url 2 20 = []"
proof -
  have "scrape_step silent_web ((new_scraper 2 20)\<lparr>to_visit := [(seed_url, 1)]\<rparr>)
          = \<lparr>max_depth = 2, max_links_per_page = 20, visited_urls = {seed_url}, content = [],
             to_visit = [], requests = 1\<rparr>"
    by (simp add: scrape_step_def Let_def new_scraper_def silent_web_def silent_page_def
        extract_text_def combined_text_def strip_def get_links_def new_entries_def slice_to_def)
  then have "scrape_loop silent_web ((new_scraper 2 20)\<lparr>to_visit := [(seed_url, 1)]\<rparr>)
          = \<lparr>max_depth = 2, max_links_per_page = 20, visited_urls = {seed_url}, content = [],
             to_visit = [], requests = 1\<rparr>"
    by (subst scrape_loop.simps, simp, subst scrape_loop.simps, simp)
  then show ?thesis
    by (simp add: run_scraper_def scrape_def silent_web_def)
qed

text \<open>
  C5, amended: for every crawl with \<^verbatim>\<open>max_depth = d\<close>, every returned record has depth at
  most \<open>d\<close>; and whenever the seed is fetched with success (\<open>d\<close> is at least 1 and the first
  request succeeds) and the text extracted from its page is not empty after trimming, a
  record of depth 1 for the seed is returned.
\<close>

theorem run_scraper_depth:
  "(\<forall>r \<in> set (run_scraper w seed md ml). depth r \<le> md)
   \<and> (1 \<le> md \<and> w 0 seed = Response pg \<and> strip (combined_text pg) \<noteq> [] \<longrightarrow>
        (\<exists>r \<in> set (run_scraper w seed md ml). depth r = 1 \<and> page_url r = seed))"
proof (intro conjI impI)
  let ?init = "(new_scraper md ml)\<lparr>to_visit := [(seed, 1)]\<rparr>"
  have "\<forall>r \<in> set (content ?init). depth r \<le> max_depth ?init"
    by (simp add: new_scraper_def)
  from scrape_loop_content_bound [OF this, of w]
  show "\<forall>r \<in> set (run_scraper w seed md ml). depth r \<le> md"
    by (simp add: run_scraper_def scrape_def new_scraper_def)
next
  let ?init = "(new_scraper md ml)\<lparr>to_visit := [(seed, 1)]\<rparr>"
  assume a: "1 \<le> md \<and> w 0 seed = Response pg \<and> strip (combined_text pg) \<noteq> []"
  then have first: "content (scrape_step w ?init)
           = [\<lparr>page_url = seed, page_text = strip (combined_text pg),
                page_title = strip (title_text pg), depth = 1\<rparr>]"
    using first_step_records_seed by blast
  have "scrape_loop w ?init = scrape_loop w (scrape_step w ?init)"
    by (subst scrape_loop.simps) simp
  moreover obtain more where
    "content (scrape_loop w (scrape_step w ?init)) = content (scrape_step w ?init) @ more"
    using scrape_loop_content_prefix by blast
  ultimately have "content (scrape_loop w ?init)
      = \<lparr>page_url = seed, page_text = strip (combined_text pg),
          page_title = strip (title_text pg), depth = 1\<rparr> # more"
    using first by simp
  then show "\<exists>r \<in> set (run_scraper w seed md ml). depth r = 1 \<and> page_url r = seed"
    by (simp add: run_scraper_def scrape_def)
qed

theorem run_scraper_depth_witness:
  "(1::int) \<le> 2 \<and> sample_web 0 seed_url = Response home_page
   \<and> strip (combined_text home_page) \<noteq> []
   \<and> (\<exists>r \<in> set (run_scraper sample_web seed_url 2 20). depth r = 1 \<and> page_url r = seed_url)
   \<and> list_all (\<lambda>r. depth r \<le> 2) (run_scraper sample_web seed_url 2 20)"
proof -
  have h: "(1::int) \<le> 2 \<and> sample_web 0 seed_url = Response home_page
      \<and> strip (combined_text home_page) \<noteq> []"
    by (simp add: sample_web_def home_page_def combined_text_def strip_def isspace_def)
  from run_scraper_depth [of sample_web seed_url 2 20 home_page] h show ?thesis
    by (simp add: list_all_iff)
qed

section \<open>Chunk sizes of the structural converter\<close>

lemma process_object_nonempty:
  "doc \<in> set (process_object meta obj path pc) \<Longrightarrow> page_content doc \<noteq> []"
proof (induction obj arbitrary: path pc
    rule: measure_induct_rule [where f = "size_list (size_prod (\<lambda>_. 0) size)"])
  case (less obj)
  have nested: "page_content doc \<noteq> []"
    if "(key, JDict d) \<in> set obj" and "doc \<in> set (process_object meta d p c)" for key d p c
    using less.IH [OF dict_nested_size [OF that(1)] that(2)] .
  have listed: "page_content doc \<noteq> []"
    if "(key, JList xs) \<in> set obj" and "(i, JDict d) \<in> set (enumerate 0 (take 5 xs))"
      and "doc \<in> set (process_object meta d p c)" for key xs i d p c
    using less.IH [OF dict_list_nested_size [OF that(1,2)] that(3)] .
  from less.prems show ?case
    apply (subst (asm) process_object.simps)
    apply (simp only: Let_def set_append Un_iff set_concat set_map)
    apply (erule disjE)
     apply (simp split: if_splits)
    apply clarsimp
    subgoal for key v
      by (cases v; simp split: if_splits) (blast dest: listed nested)+
    done
qed

lemma resplit_bound:
  assumes "\<forall>text. \<forall>piece \<in> set (split_text svc (chunk_size st) (chunk_overlap st)
                                 json_separators text).
             piece \<noteq> [] \<and> int (length piece) \<le> chunk_size st"
    and "page_content chunk \<noteq> []"
    and "x \<in> set (if int (length (page_content chunk)) > chunk_size st * 2
                    then split_documents svc st json_separators [chunk] else [chunk])"
  shows "page_content x \<noteq> [] \<and> int (length (page_content x)) \<le> 2 * chunk_size st"
proof (cases "int (length (page_content chunk)) > chunk_size st * 2")
  case True
  with assms(3) have "page_content x \<in> set (split_text svc (chunk_size st) (chunk_overlap st)
      json_separators (page_content chunk))"
    by (auto simp: split_documents_def)
  with assms(1) have "page_content x \<noteq> []" and "int (length (page_content x)) \<le> chunk_size st"
    by blast+
  then show ?thesis by simp
next
  case False
  with assms(2,3) show ?thesis by simp
qed

lemma chop_pieces: "piece \<in> set (chop n s) \<Longrightarrow> piece \<noteq> [] \<and> length piece \<le> n"
proof (induction n s rule: chop.induct)
  case (1 n s)
  then show ?case
    by (subst (asm) (2) chop.simps) (auto split: if_splits)
qed

lemma sample_split_contract:
  "\<forall>text. \<forall>piece \<in> set (split_text sample_services cs ov seps text).
     piece \<noteq> [] \<and> int (length piece) \<le> cs"
proof (intro allI ballI)
  fix t piece
  assume "piece \<in> set (split_text sample_services cs ov seps t)"
  then have "piece \<in> set (chop (nat cs) t)"
    by (simp add: sample_services_def sample_split_def)
  from chop_pieces [OF this] have ne: "piece \<noteq> []" and le: "length piece \<le> nat cs"
    by simp_all
  from ne have "0 < length piece" by simp
  with le have "int (length piece) \<le> cs" by arith
  with ne show "piece \<noteq> [] \<and> int (length piece) \<le> cs" by simp
qed

lemma sample_json_chunks:
  "json_process sample_services sample_settings sample_object_text []
     = Inr [Doc sample_overview_chunk, Doc sample_object_chunk]"
  by (simp add: json_process_def sample_services_def sample_loads_def sample_object_def
      sample_settings_def create_structured_chunks_def process_object.simps dict_to_text.simps
      convert_value_to_text.simps create_overview_def humanize_def str_title_def
      replace_char_def islower_def isupper_def upper_def lower_def ascii_lowercase_def
      ascii_uppercase_def indent_of_def strip_def isspace_def isinstance_str_def
      isinstance_int_float_def str_lower_def Let_def sample_overview_chunk_def
      sample_object_chunk_def)

text \<open>
  C2, as stated: every chunk emitted by \<^verbatim>\<open>process\<close> is within the configured chunk size,
  overlap allowed. The post-pass re-splits a chunk only when it is longer than twice the
  chunk size: with a chunk size of 50 and an overlap of 10, an object with one long string
  yields an overview chunk of 88 characters, which is emitted as it is.
\<close>

theorem json_process_oversize_counterexample:
  "json_process sample_services sample_settings sample_object_text []
     = Inr [Doc sample_overview_chunk, Doc sample_object_chunk]
   \<and> length (chunk_text (Doc sample_overview_chunk)) = 88
   \<and> chunk_size sample_settings + chunk_overlap sample_settings = 60"
  using sample_json_chunks by (simp add: sample_overview_chunk_def sample_settings_def)

text \<open>
  C2, amended: for every structured input, every chunk emitted by \<^verbatim>\<open>process\<close> is not empty
  and is at most twice the configured chunk size long, provided the plain-text splitter
  returns pieces that are not empty and within the chunk size: a chunk longer than twice
  the chunk size is re-split, any other chunk is emitted as it is.
\<close>

theorem json_process_chunk_bound:
  assumes splitter: "\<forall>text. \<forall>piece \<in> set (split_text svc (chunk_size st) (chunk_overlap st)
                                 json_separators text).
             piece \<noteq> [] \<and> int (length piece) \<le> chunk_size st"
    and run: "json_process svc st raw meta = Inr chunks"
    and mem: "c \<in> set chunks"
  shows "chunk_text c \<noteq> [] \<and> int (length (chunk_text c)) \<le> 2 * chunk_size st"
proof (cases "json_loads svc raw")
  case None
  with run mem obtain piece where
    "c = Raw piece" and
    "piece \<in> set (split_text svc (chunk_size st) (chunk_overlap st) json_separators raw)"
    by (auto simp: json_process_def)
  moreover from this(2) splitter
  have "piece \<noteq> []" and "int (length piece) \<le> chunk_size st"
    by blast+
  ultimately show ?thesis by simp
next
  case (Some json_data)
  show ?thesis
  proof (cases json_data)
    case (JDict d)
    define em where "em = dict_set ''processor'' (VStr ''enhanced_json'')
                        (dict_set ''content_type'' (VStr ''json'') meta)"
    define structured where "structured =
      (if create_overview json_data \<noteq> [] then
         \<lparr>page_content = ''Complete Overview:\<newline>\<newline>'' @ create_overview json_data,
          metadata = dict_set ''chunk_type'' (VStr ''overview'') em\<rparr>
           # create_structured_chunks d em
       else create_structured_chunks d em)"
    have nonempty: "page_content chunk \<noteq> []" if "chunk \<in> set structured" for chunk
      using that process_object_nonempty [of chunk em d "''''" "''Root''"]
      by (auto simp: structured_def create_structured_chunks_def split: if_splits)
    from run Some JDict have "chunks = map Doc (concat (map (\<lambda>chunk.
        if int (length (page_content chunk)) > chunk_size st * 2
        then split_documents svc st json_separators [chunk] else [chunk]) structured))"
      by (cases "create_overview json_data = []")
         (simp_all add: json_process_def Let_def structured_def em_def)
    with mem obtain chunk x where "chunk \<in> set structured" and "c = Doc x"
      and "x \<in> set (if int (length (page_content chunk)) > chunk_size st * 2
                      then split_documents svc st json_separators [chunk] else [chunk])"
      by auto
    with resplit_bound [OF splitter nonempty] show ?thesis
      by simp
  qed (use run Some in \<open>simp_all add: json_process_def\<close>)
qed


theorem json_process_chunk_bound_witness:
  "json_process sample_services sample_settings sample_object_text []
     = Inr [Doc sample_overview_chunk, Doc sample_object_chunk]
   \<and> chunk_text (Doc sample_object_chunk) \<noteq> []
   \<and> int (length (chunk_text (Doc sample_object_chunk))) \<le> 2 * chunk_size sample_settings"
proof -
  have "Doc sample_object_chunk \<in> set [Doc sample_overview_chunk, Doc sample_object_chunk]"
    by simp
  from json_process_chunk_bound [OF sample_split_contract sample_json_chunks this]
    sample_json_chunks
  show ?thesis by simp
qed

section \<open>Ingestion coordinator: terminal status and clean-up\<close>

lemma set_row_simps [simp]:
  "files (set_row wd i f) = files wd"
  "index (set_row wd i f) = index wd"
  "db wd i = Some row \<Longrightarrow> db (set_row wd i f) i = Some (f row)"
  by (simp_all add: set_row_def split: option.splits)

lemma ingest_body_completed:
  assumes "ingest_body svc st wd file_path filename document_id session_id uid = Inr wd'"
    and "db wd document_id = Some row"
  shows "files wd' = files wd"
    and "db wd' document_id = Some (row\<lparr>processed := ''completed''\<rparr>)"
  using assms
  by (auto simp: ingest_body_def Let_def split: sum.splits prod.splits)

lemma unlink_result:
  "unlink wd path = Inr wd' \<Longrightarrow> files wd' path = None \<and> db wd' = db wd"
  "unlink wd path = Inl e \<Longrightarrow> files wd path = None"
  by (auto simp: unlink_def split: option.splits)

lemma process_file_from_path_known_document:
  assumes "db wd document_id = Some row"
  shows "files (process_file_from_path svc st wd file_path filename document_id session_id uid)
           file_path = None"
    and "\<exists>row'. db (process_file_from_path svc st wd file_path filename document_id session_id uid)
                  document_id = Some row'
               \<and> (processed row' = ''completed'' \<or> processed row' = ''failed'')"
proof -
  define wd1 where "wd1 = set_row wd document_id (\<lambda>row. row\<lparr>processed := ''processing''\<rparr>)"
  have row1: "db wd1 document_id = Some (row\<lparr>processed := ''processing''\<rparr>)"
    using assms by (simp add: wd1_def)
  define body where "body = ingest_body svc st wd1 file_path filename document_id session_id uid"
  define after_body where "after_body = (case body of Inl e \<Rightarrow> wd1 | Inr wd' \<Rightarrow> wd')"
  have after_files: "files after_body = files wd1"
    using ingest_body_completed(1) [OF _ row1, of svc st file_path filename session_id uid]
    by (auto simp: after_body_def body_def split: sum.splits)
  have after_row: "\<exists>r. db after_body document_id = Some r
      \<and> (case body of Inl e \<Rightarrow> True | Inr _ \<Rightarrow> processed r = ''completed'')"
    using ingest_body_completed(2) [OF _ row1, of svc st file_path filename session_id uid] row1
    by (auto simp: after_body_def body_def split: sum.splits)
  have result: "process_file_from_path svc st wd file_path filename document_id session_id uid
      = (case unlink after_body file_path of
           Inl e \<Rightarrow> set_row after_body document_id
                      (\<lambda>row. row\<lparr>processed := ''failed'', error_message := Some (message e)\<rparr>)
         | Inr wd'' \<Rightarrow>
             (case body of
                Inl e \<Rightarrow> set_row wd'' document_id
                      (\<lambda>row. row\<lparr>processed := ''failed'', error_message := Some (message e)\<rparr>)
              | Inr _ \<Rightarrow> wd''))"
    using assms
    by (simp add: process_file_from_path_def Let_def wd1_def body_def after_body_def
        split: sum.splits)
  show "files (process_file_from_path svc st wd file_path filename document_id session_id uid)
           file_path = None"
    unfolding result
    by (auto split: sum.splits dest: unlink_result)
  from after_row obtain r where r: "db after_body document_id = Some r"
    and fin: "case body of Inl e \<Rightarrow> True | Inr _ \<Rightarrow> processed r = ''completed''"
    by blast
  show "\<exists>row'. db (process_file_from_path svc st wd file_path filename document_id session_id uid)
                  document_id = Some row'
               \<and> (processed row' = ''completed'' \<or> processed row' = ''failed'')"
    unfolding result using r fin
    by (auto split: sum.splits dest!: unlink_result(1))
qed

lemma process_file_from_path_unknown_document:
  "db wd document_id = None \<Longrightarrow>
   process_file_from_path svc st wd file_path filename document_id session_id uid = wd"
  by (simp add: process_file_from_path_def)

text \<open>
  C3. The claim is that a document whose content fails structured parsing falls back to
  plain text and reaches the completed state. On the decode error \<^verbatim>\<open>process\<close> returns the
  pieces of \<^verbatim>\<open>split_text\<close>, which are strings, not documents; for a file named
  \<^verbatim>\<open>*.json\<close> they go to \<^verbatim>\<open>add_documents\<close>, which reads \<^verbatim>\<open>page_content\<close> of each and raises,
  and the document is marked failed. The same content in a file with another name takes
  the plain-text processor and is completed.
\<close>

theorem malformed_json_file_fails:
  "db (process_file_from_path sample_services sample_settings
         (sample_world ''/tmp/tmp1_data.json'' ''not json'')
         ''/tmp/tmp1_data.json'' ''data.json'' 1 ''s1'' 7) 1
     = Some \<lparr>processed = ''failed'',
             error_message = Some (message (no_attribute ''str'' ''page_content''))\<rparr>
   \<and> db (process_file_from_path sample_services sample_settings
         (sample_world ''/tmp/tmp1_notes.txt'' ''not json'')
         ''/tmp/tmp1_notes.txt'' ''notes.txt'' 1 ''s1'' 7) 1
     = Some \<lparr>processed = ''completed'', error_message = None\<rparr>"
  by (simp add: process_file_from_path_def ingest_body_def produce_chunks_def Let_def
      sample_world_def pending_row_def set_row_def read_file_def unlink_def endswith_def
      str_lower_def lower_def ascii_uppercase_def ascii_lowercase_def json_process_def
      text_process_def split_documents_def sample_services_def sample_settings_def
      sample_loads_def sample_object_text_def sample_split_def chop.simps add_documents_def
      client_upsert_def empty_store_def strip_def isspace_def)

text \<open>
  C7. The claim is that the temporary file is deleted on every exit path. The return for
  a document whose row is not found comes before the \<^verbatim>\<open>try ... finally\<close> that removes the
  file: the upload written by \<^verbatim>\<open>process_file\<close> is still there afterwards. When the row
  exists, the file is removed and the status ends as completed or failed
  (\<open>process_file_from_path_known_document\<close>).
\<close>

theorem unknown_document_keeps_file:
  "files (process_file sample_services sample_settings world_without_rows
            ''/tmp/tmp1_notes.txt'' ''notes.txt'' ''hello'' 1 ''s1'' 7) ''/tmp/tmp1_notes.txt''
     = Some ''hello''"
  by (simp add: process_file_def process_file_from_path_def world_without_rows_def)

end
